theory Spec2Isabelle
  imports Main
begin

section \<open>Library management backend: loans and inventory\<close>

text \<open>
  A shallow embedding of the request handlers of \<^verbatim>\<open>main.py\<close> that own the loan
  lifecycle: \<^verbatim>\<open>borrow_book\<close>, \<^verbatim>\<open>return_book\<close>, \<^verbatim>\<open>list_loans\<close>, \<^verbatim>\<open>delete_member\<close>
  and \<^verbatim>\<open>stats\<close>. The document store is explicit state: every handler takes the
  database and returns the database it leaves behind together with its response, so that
  what a failing request has written is visible.
\<close>

subsection \<open>Identifiers, time, errors\<close>

text \<open>
  \<^verbatim>\<open>bson.ObjectId\<close> is a library type. Its documented contract is modelled: a string is a
  valid identifier when it has 24 hexadecimal digits, \<^verbatim>\<open>ObjectId(s)\<close> reads the digits
  without regard to case, and \<^verbatim>\<open>str\<close> of an identifier prints lower-case digits. An
  identifier is represented by that lower-case string.
\<close>

type_synonym objectid = string

definition is_hexdigit :: "char \<Rightarrow> bool" where
  "is_hexdigit c = (c \<in> set ''0123456789abcdefABCDEF'')"

definition lower_hexdigit :: "char \<Rightarrow> char" where
  "lower_hexdigit c =
     (if c = CHR ''A'' then CHR ''a''
      else if c = CHR ''B'' then CHR ''b''
      else if c = CHR ''C'' then CHR ''c''
      else if c = CHR ''D'' then CHR ''d''
      else if c = CHR ''E'' then CHR ''e''
      else if c = CHR ''F'' then CHR ''f''
      else c)"

definition ObjectId_is_valid :: "string \<Rightarrow> bool" where
  "ObjectId_is_valid v = (length v = 24 \<and> list_all is_hexdigit v)"

definition ObjectId :: "string \<Rightarrow> objectid" where
  "ObjectId v = map lower_hexdigit v"

text \<open>
  A \<^verbatim>\<open>datetime\<close> is a count of microseconds. All clock reads of one request are taken
  at the same instant \<open>now\<close>, which the handler receives as an argument.
\<close>

type_synonym datetime = int

definition timedelta :: "int \<Rightarrow> int" where
  "timedelta days_arg = days_arg * 86400000000"

text \<open>
  \<^verbatim>\<open>HTTPException(code, detail)\<close> as the handlers raise it; \<open>InvalidId\<close> is the
  exception of \<^verbatim>\<open>ObjectId(v)\<close> on a string that is not a valid identifier.
\<close>

datatype error = HTTPException nat string | InvalidId string

subsection \<open>Documents\<close>

text \<open>
  The collections hold the fields of \<^verbatim>\<open>schemas.py\<close>. A field that a handler reads with
  \<^verbatim>\<open>.get(key, default)\<close> is optional in the model (\<open>None\<close>: the document lacks it);
  \<open>updated_at\<close> is the stamp that the update operations set.
\<close>

record book =
  title :: string
  author :: string
  isbn :: string
  category :: "string option"
  description :: "string option"
  total_copies :: int
  copies_available :: "int option"
  tags :: "string list"
  book_updated_at :: "datetime option"

record member =
  name :: string
  email :: string
  phone :: "string option"
  address :: "string option"
  is_active :: "bool option"
  member_updated_at :: "datetime option"

record loan =
  member_id :: string
  book_id :: string
  borrowed_at :: datetime
  due_at :: datetime
  returned_at :: "datetime option"
  status :: string
  loan_updated_at :: "datetime option"

text \<open>\<^verbatim>\<open>BorrowRequest\<close>: the body of a borrow request, with its field constraint on \<open>days\<close>.\<close>

record BorrowRequest =
  req_member_id :: string
  req_book_id :: string
  req_days :: int

definition BorrowRequest_valid :: "BorrowRequest \<Rightarrow> bool" where
  "BorrowRequest_valid payload = (1 \<le> req_days payload \<and> req_days payload \<le> 60)"

subsection \<open>The document store\<close>

text \<open>
  A collection is the list of its documents in insertion order, each paired with its
  \<^verbatim>\<open>_id\<close>. The operations are those of the store's driver that the handlers call; an
  operation on one document acts on the first document that matches.
\<close>

type_synonym 'a collection = "(objectid \<times> 'a) list"

record db =
  book_coll :: "book collection"
  member_coll :: "member collection"
  loan_coll :: "loan collection"

fun find_one :: "'a collection \<Rightarrow> objectid \<Rightarrow> (objectid \<times> 'a) option" where
  "find_one [] k = None"
| "find_one ((k', d) # ds) k = (if k' = k then Some (k', d) else find_one ds k)"

fun update_one :: "objectid \<Rightarrow> ('a \<Rightarrow> 'a) \<Rightarrow> 'a collection \<Rightarrow> 'a collection" where
  "update_one k f [] = []"
| "update_one k f ((k', d) # ds) =
     (if k' = k then (k', f d) # ds else (k', d) # update_one k f ds)"

definition update_many :: "('a \<Rightarrow> bool) \<Rightarrow> ('a \<Rightarrow> 'a) \<Rightarrow> 'a collection \<Rightarrow> 'a collection" where
  "update_many q f ds = map (\<lambda>(k, d). if q d then (k, f d) else (k, d)) ds"

text \<open>\<^verbatim>\<open>delete_one\<close> returns the collection and its \<^verbatim>\<open>deleted_count\<close>.\<close>

fun delete_one :: "objectid \<Rightarrow> 'a collection \<Rightarrow> 'a collection \<times> nat" where
  "delete_one k [] = ([], 0)"
| "delete_one k ((k', d) # ds) =
     (if k' = k then (ds, 1)
      else (case delete_one k ds of (ds', n) \<Rightarrow> ((k', d) # ds', n)))"

definition count_documents :: "('a \<Rightarrow> bool) \<Rightarrow> 'a collection \<Rightarrow> nat" where
  "count_documents q ds = length (filter (\<lambda>(k, d). q d) ds)"

text \<open>
  Modelled from the spec: \<^verbatim>\<open>create_document\<close> of \<^verbatim>\<open>database.py\<close>, which is not among the
  sources. The spec says that each entity owns an identifier assigned at creation, and the
  handlers use the result as the new identifier's string. The identifier that the store
  assigns is an input of the model (\<open>new_id\<close>); the document is stored under it.
\<close>

definition create_document :: "'a collection \<Rightarrow> 'a \<Rightarrow> string \<Rightarrow> 'a collection \<times> string" where
  "create_document coll data new_id = (coll @ [(ObjectId new_id, data)], new_id)"

text \<open>
  \<^verbatim>\<open>to_str_id\<close> renames \<^verbatim>\<open>_id\<close> to \<^verbatim>\<open>id\<close> and prints it; an absent document is
  returned as it is.
\<close>

definition to_str_id :: "(objectid \<times> 'a) option \<Rightarrow> (string \<times> 'a) option" where
  "to_str_id doc = (case doc of None \<Rightarrow> None | Some (k, d) \<Rightarrow> Some (k, d))"

subsection \<open>Borrowing and returning\<close>

text \<open>\<^verbatim>\<open>member.get("is_active", True)\<close> and \<^verbatim>\<open>book.get("copies_available", 0)\<close>.\<close>

definition get_is_active :: "member \<Rightarrow> bool" where
  "get_is_active m = (case is_active m of None \<Rightarrow> True | Some b \<Rightarrow> b)"

definition get_copies_available :: "book \<Rightarrow> int" where
  "get_copies_available b = (case copies_available b of None \<Rightarrow> 0 | Some n \<Rightarrow> n)"

text \<open>
  The update \<^verbatim>\<open>{"$inc": {"copies_available": n}, "$set": {"updated_at": now}}\<close>; the
  store's \<^verbatim>\<open>$inc\<close> sets a field that the document lacks to \<open>n\<close>.
\<close>

definition inc_copies_available :: "int \<Rightarrow> datetime \<Rightarrow> book \<Rightarrow> book" where
  "inc_copies_available n now b =
     b\<lparr>copies_available := Some (get_copies_available b + n), book_updated_at := Some now\<rparr>"

definition borrow_book ::
  "db \<Rightarrow> BorrowRequest \<Rightarrow> datetime \<Rightarrow> string \<Rightarrow> db \<times> (error + (string \<times> loan) option)" where
  "borrow_book s payload now new_id =
     (if \<not> ObjectId_is_valid (req_member_id payload) \<or> \<not> ObjectId_is_valid (req_book_id payload)
      then (s, Inl (HTTPException 400 ''Invalid member or book id''))
      else
        (case find_one (member_coll s) (ObjectId (req_member_id payload)) of
          None \<Rightarrow> (s, Inl (HTTPException 400 ''Member not found or inactive''))
        | Some (mk, m) \<Rightarrow>
            if \<not> get_is_active m
            then (s, Inl (HTTPException 400 ''Member not found or inactive''))
            else
              (case find_one (book_coll s) (ObjectId (req_book_id payload)) of
                None \<Rightarrow> (s, Inl (HTTPException 404 ''Book not found''))
              | Some (bk, b) \<Rightarrow>
                  if get_copies_available b \<le> 0
                  then (s, Inl (HTTPException 400 ''No copies available''))
                  else
                    (let due = now + timedelta (req_days payload);
                         ln = \<lparr>member_id = req_member_id payload,
                               book_id = req_book_id payload,
                               borrowed_at = now,
                               due_at = due,
                               returned_at = None,
                               status = ''borrowed'',
                               loan_updated_at = None\<rparr>;
                         (loans', loan_id) = create_document (loan_coll s) ln new_id;
                         s1 = s\<lparr>loan_coll := loans'\<rparr>;
                         s2 = s1\<lparr>book_coll :=
                                 update_one (ObjectId (req_book_id payload))
                                   (inc_copies_available (- 1) now) (book_coll s1)\<rparr>
                     in (s2, Inr (to_str_id (find_one (loan_coll s2) (ObjectId loan_id))))))))"

text \<open>
  The request as the framework serves it: a body that violates the constraint on
  \<open>days\<close> is rejected (status 422) before the handler runs.
\<close>

definition post_loans_borrow ::
  "db \<Rightarrow> BorrowRequest \<Rightarrow> datetime \<Rightarrow> string \<Rightarrow> db \<times> (error + (string \<times> loan) option)" where
  "post_loans_borrow s payload now new_id =
     (if BorrowRequest_valid payload then borrow_book s payload now new_id
      else (s, Inl (HTTPException 422 ''Unprocessable Entity'')))"

definition mark_returned :: "datetime \<Rightarrow> loan \<Rightarrow> loan" where
  "mark_returned now l =
     l\<lparr>status := ''returned'', returned_at := Some now, loan_updated_at := Some now\<rparr>"

definition return_book ::
  "db \<Rightarrow> string \<Rightarrow> datetime \<Rightarrow> db \<times> (error + (string \<times> loan) option)" where
  "return_book s loan_id now =
     (if \<not> ObjectId_is_valid loan_id then (s, Inl (HTTPException 400 ''Invalid loan id''))
      else
        (case find_one (loan_coll s) (ObjectId loan_id) of
          None \<Rightarrow> (s, Inl (HTTPException 404 ''Loan not found''))
        | Some (lk, l) \<Rightarrow>
            if status l = ''returned'' then (s, Inr (to_str_id (Some (lk, l))))
            else
              (let s1 = s\<lparr>loan_coll := update_one (ObjectId loan_id) (mark_returned now) (loan_coll s)\<rparr>
               in if \<not> ObjectId_is_valid (book_id l) then (s1, Inl (InvalidId (book_id l)))
                  else
                    (let s2 = s1\<lparr>book_coll :=
                                 update_one (ObjectId (book_id l))
                                   (inc_copies_available 1 now) (book_coll s1)\<rparr>
                     in (s2, Inr (to_str_id (find_one (loan_coll s2) (ObjectId loan_id))))))))"

subsection \<open>Listing loans, deleting members, statistics\<close>

text \<open>
  \<^verbatim>\<open>list_loans\<close> first runs the update
  \<^verbatim>\<open>update_many({"status": "borrowed", "due_at": {"$lt": now}}, {"$set": {"status": "overdue"}})\<close>
  and then lists the loans that match the optional status filter (an empty filter string
  is no filter), latest \<open>borrowed_at\<close> first, each with the names that the member and
  book collections hold under the loan's identifier strings. The store leaves the order of
  loans with equal \<open>borrowed_at\<close> open; the model keeps their insertion order.
\<close>

definition overdue_query :: "datetime \<Rightarrow> loan \<Rightarrow> bool" where
  "overdue_query now l = (status l = ''borrowed'' \<and> due_at l < now)"

definition set_overdue :: "loan \<Rightarrow> loan" where
  "set_overdue l = l\<lparr>status := ''overdue''\<rparr>"

definition status_query :: "string option \<Rightarrow> loan \<Rightarrow> bool" where
  "status_query status_arg l =
     (case status_arg of
        None \<Rightarrow> True
      | Some st \<Rightarrow> if st = [] then True else status l = st)"

definition list_loans ::
  "db \<Rightarrow> string option \<Rightarrow> datetime \<Rightarrow> db \<times> (string \<times> loan \<times> string option \<times> string option) list" where
  "list_loans s status_arg now =
     (let s1 = s\<lparr>loan_coll := update_many (overdue_query now) set_overdue (loan_coll s)\<rparr>;
          docs = sort_key (\<lambda>(k, l). - borrowed_at l)
                   (filter (\<lambda>(k, l). status_query status_arg l) (loan_coll s1));
          out = map (\<lambda>(k, l).
                       (k, l,
                        map_option name (map_of (member_coll s1) (member_id l)),
                        map_option title (map_of (book_coll s1) (book_id l)))) docs
      in (s1, out))"

definition active_loan_query :: "loan \<Rightarrow> bool" where
  "active_loan_query l = (status l \<in> set [''borrowed'', ''overdue''])"

definition delete_member :: "db \<Rightarrow> string \<Rightarrow> db \<times> (error + unit)" where
  "delete_member s mid =
     (if \<not> ObjectId_is_valid mid then (s, Inl (HTTPException 400 ''Invalid member id''))
      else
        (let active_loans =
               count_documents (\<lambda>l. member_id l = mid \<and> active_loan_query l) (loan_coll s)
         in if active_loans > 0 then (s, Inl (HTTPException 400 ''Member has active loans''))
            else
              (case delete_one (ObjectId mid) (member_coll s) of
                (members', deleted_count) \<Rightarrow>
                  if deleted_count = 0
                  then (s\<lparr>member_coll := members'\<rparr>, Inl (HTTPException 404 ''Member not found''))
                  else (s\<lparr>member_coll := members'\<rparr>, Inr ()))))"

text \<open>
  \<^verbatim>\<open>stats\<close>. The \<^verbatim>\<open>$group\<close> stage yields one document with the two sums when the
  collection has a book and none otherwise; \<^verbatim>\<open>$sum\<close> counts a missing field as 0.
\<close>

record stats_result =
  books :: nat
  copies :: int
  available :: int
  members :: nat
  active_loans :: nat
  overdue :: nat

definition aggregate_copies :: "book collection \<Rightarrow> (int \<times> int) list" where
  "aggregate_copies bs =
     (if bs = [] then []
      else [(sum_list (map (\<lambda>(k, b). total_copies b) bs),
             sum_list (map (\<lambda>(k, b). get_copies_available b) bs))])"

definition stats :: "db \<Rightarrow> db \<times> stats_result" where
  "stats s =
     (let total_books = count_documents (\<lambda>b. True) (book_coll s);
          total_copies_agg = aggregate_copies (book_coll s);
          total_members = count_documents (\<lambda>m. True) (member_coll s);
          active = count_documents active_loan_query (loan_coll s);
          overdue_n = count_documents (\<lambda>l. status l = ''overdue'') (loan_coll s);
          total = (case total_copies_agg of [] \<Rightarrow> 0 | (t, a) # rest \<Rightarrow> t);
          avail = (case total_copies_agg of [] \<Rightarrow> 0 | (t, a) # rest \<Rightarrow> a)
      in (s, \<lparr>books = total_books, copies = total, available = avail,
               members = total_members, active_loans = active, overdue = overdue_n\<rparr>))"

subsection \<open>The error kinds of the specification\<close>

abbreviation InvalidIdentifier :: error where
  "InvalidIdentifier \<equiv> HTTPException 400 ''Invalid member or book id''"

abbreviation InvalidMember :: error where
  "InvalidMember \<equiv> HTTPException 400 ''Member not found or inactive''"

abbreviation BookNotFound :: error where
  "BookNotFound \<equiv> HTTPException 404 ''Book not found''"

abbreviation OutOfStock :: error where
  "OutOfStock \<equiv> HTTPException 400 ''No copies available''"

abbreviation NotFound :: error where
  "NotFound \<equiv> HTTPException 404 ''Loan not found''"

abbreviation HasActiveLoans :: error where
  "HasActiveLoans \<equiv> HTTPException 400 ''Member has active loans''"

subsection \<open>Sequences of requests and the inventory invariants\<close>

datatype request = Borrow BorrowRequest datetime string | Return string datetime

fun serve :: "db \<Rightarrow> request \<Rightarrow> db \<times> (error + (string \<times> loan) option)" where
  "serve s (Borrow payload now new_id) = post_loans_borrow s payload now new_id"
| "serve s (Return loan_id now) = return_book s loan_id now"

fun succeeds :: "db \<Rightarrow> request \<Rightarrow> bool" where
  "succeeds s r = (case snd (serve s r) of Inl e \<Rightarrow> False | Inr v \<Rightarrow> True)"

fun serve_all :: "db \<Rightarrow> request list \<Rightarrow> db" where
  "serve_all s [] = s"
| "serve_all s (r # rs) = serve_all (fst (serve s r)) rs"

fun all_succeed :: "db \<Rightarrow> request list \<Rightarrow> bool" where
  "all_succeed s [] = True"
| "all_succeed s (r # rs) = (succeeds s r \<and> all_succeed (fst (serve s r)) rs)"

text \<open>The invariant of the specification, for one book and for all books of a state.\<close>

definition copies_in_range :: "book \<Rightarrow> bool" where
  "copies_in_range b =
     (0 \<le> get_copies_available b \<and> get_copies_available b \<le> total_copies b)"

definition inventory_in_range :: "db \<Rightarrow> bool" where
  "inventory_in_range s = list_all (\<lambda>(k, b). copies_in_range b) (book_coll s)"

text \<open>
  The loans of book \<open>k\<close> that are out: not returned, and naming \<open>k\<close>. The ledger
  invariant counts them against the copies that the library owns.
\<close>

definition out_query :: "objectid \<Rightarrow> loan \<Rightarrow> bool" where
  "out_query k l =
     (status l \<noteq> ''returned'' \<and> ObjectId_is_valid (book_id l) \<and> ObjectId (book_id l) = k)"

definition copies_out :: "objectid \<Rightarrow> loan collection \<Rightarrow> int" where
  "copies_out k ls = int (count_documents (out_query k) ls)"

definition ledger_ok :: "db \<Rightarrow> bool" where
  "ledger_ok s =
     (distinct (map fst (book_coll s)) \<and>
      list_all (\<lambda>(k, b). 0 \<le> get_copies_available b \<and>
                         get_copies_available b + copies_out k (loan_coll s) \<le> total_copies b)
        (book_coll s))"

text \<open>
  The borrower check of the specification (\<open>canBorrow\<close>), in the form in which the
  handler decides it: the member exists and its \<open>is_active\<close> is not false.
\<close>

definition member_ok :: "db \<Rightarrow> BorrowRequest \<Rightarrow> bool" where
  "member_ok s payload =
     (case find_one (member_coll s) (ObjectId (req_member_id payload)) of
        None \<Rightarrow> False
      | Some (mk, m) \<Rightarrow> is_active m \<noteq> Some False)"

subsection \<open>A small library, for concrete runs\<close>

definition id_book :: string where "id_book = ''64b000000000000000000001''"
definition id_member :: string where "id_member = ''64a000000000000000000001''"
definition id_member2 :: string where "id_member2 = ''64a000000000000000000002''"
definition id_nobody :: string where "id_nobody = ''64a0000000000000000000ff''"
definition id_loan :: string where "id_loan = ''64c000000000000000000001''"
definition id_loan2 :: string where "id_loan2 = ''64c000000000000000000002''"

definition book_A :: book where
  "book_A = \<lparr>title = ''Dune'', author = ''Herbert'', isbn = ''9780441013593'',
     category = None, description = None, total_copies = 1, copies_available = Some 1,
     tags = [], book_updated_at = None\<rparr>"

definition member_A :: member where
  "member_A = \<lparr>name = ''Ann'', email = ''ann@example.org'', phone = None, address = None,
     is_active = Some True, member_updated_at = None\<rparr>"

definition member_B :: member where
  "member_B = \<lparr>name = ''Bob'', email = ''bob@example.org'', phone = None, address = None,
     is_active = None, member_updated_at = None\<rparr>"

definition db_A :: db where
  "db_A = \<lparr>book_coll = [(id_book, book_A)],
     member_coll = [(id_member, member_A), (id_member2, member_B)], loan_coll = []\<rparr>"

definition request_A :: BorrowRequest where
  "request_A = \<lparr>req_member_id = id_member, req_book_id = id_book, req_days = 14\<rparr>"

definition request_B :: BorrowRequest where
  "request_B = \<lparr>req_member_id = id_member2, req_book_id = id_book, req_days = 14\<rparr>"

definition request_nobody :: BorrowRequest where
  "request_nobody = \<lparr>req_member_id = id_nobody, req_book_id = id_book, req_days = 14\<rparr>"

definition request_bad :: BorrowRequest where
  "request_bad = \<lparr>req_member_id = ''42'', req_book_id = id_book, req_days = 14\<rparr>"

definition loan_A :: loan where
  "loan_A = \<lparr>member_id = id_member, book_id = id_book, borrowed_at = 0,
     due_at = timedelta 14, returned_at = None, status = ''borrowed'', loan_updated_at = None\<rparr>"

definition loan_R :: loan where
  "loan_R = \<lparr>member_id = id_member, book_id = id_book, borrowed_at = 0,
     due_at = timedelta 14, returned_at = Some 5, status = ''returned'',
     loan_updated_at = Some 5\<rparr>"

definition db_lent :: db where
  "db_lent = \<lparr>book_coll = [(id_book, book_A)],
     member_coll = [(id_member, member_A), (id_member2, member_B)],
     loan_coll = [(id_loan, loan_A)]\<rparr>"

definition db_returned :: db where
  "db_returned = \<lparr>book_coll = [(id_book, book_A)],
     member_coll = [(id_member, member_A), (id_member2, member_B)],
     loan_coll = [(id_loan, loan_R)]\<rparr>"

definition db_empty :: db where
  "db_empty = \<lparr>book_coll = [], member_coll = [], loan_coll = []\<rparr>"

section \<open>Properties\<close>

lemmas sample_defs = id_book_def id_member_def id_member2_def id_nobody_def id_loan_def
  id_loan2_def book_A_def member_A_def member_B_def db_A_def request_A_def request_B_def
  request_nobody_def request_bad_def loan_A_def loan_R_def db_lent_def db_returned_def
  db_empty_def

lemmas model_defs = borrow_book_def post_loans_borrow_def return_book_def
  ObjectId_is_valid_def ObjectId_def is_hexdigit_def lower_hexdigit_def
  get_is_active_def get_copies_available_def inc_copies_available_def mark_returned_def
  create_document_def to_str_id_def timedelta_def BorrowRequest_valid_def member_ok_def Let_def

subsection \<open>The store operations\<close>

lemma find_one_key: "find_one ds k = Some (k', d) \<Longrightarrow> k' = k"
  by (induction ds) (auto split: if_splits)

lemma find_one_None_iff: "find_one ds k = None \<longleftrightarrow> k \<notin> fst ` set ds"
  by (induction ds) (auto split: if_splits)

lemma find_one_mem: "find_one ds k = Some (k', d) \<Longrightarrow> (k', d) \<in> set ds"
  by (induction ds) (auto split: if_splits)

lemma find_one_update_one_same:
  "find_one ds k = Some (k', d) \<Longrightarrow> find_one (update_one k f ds) k = Some (k, f d)"
  by (induction ds) (auto split: if_splits)

lemma find_one_update_one_other:
  "k' \<noteq> k \<Longrightarrow> find_one (update_one k f ds) k' = find_one ds k'"
  by (induction ds) auto

lemma map_fst_update_one: "map fst (update_one k f ds) = map fst ds"
  by (induction ds) auto

lemma find_one_append_fresh:
  "k \<notin> fst ` set ds \<Longrightarrow> find_one (ds @ [(k, d)]) k = Some (k, d)"
  by (induction ds) auto

lemma find_one_append_last: "find_one (ds @ [(k, d)]) k \<noteq> None"
  by (induction ds) auto

lemma get_is_active_iff: "get_is_active m \<longleftrightarrow> is_active m \<noteq> Some False"
  by (cases "is_active m") (auto simp: get_is_active_def)

subsection \<open>Borrowing: failures\<close>

text \<open>
  Claim C10. A borrow that fails has written nothing: the database it leaves behind is the
  database it was given, so no loan was created and no book was modified; and its failure is
  one of the four that the checks before the first write raise (identifier format, member
  missing or inactive, book missing, no copies available).
\<close>

theorem borrow_book_failure_writes_nothing:
  assumes "snd (borrow_book s payload now new_id) = Inl e"
  shows "fst (borrow_book s payload now new_id) = s \<and>
         e \<in> {InvalidIdentifier, InvalidMember, BookNotFound, OutOfStock}"
  using assms
  by (auto simp: borrow_book_def Let_def create_document_def
           split: if_splits option.splits prod.splits)

theorem borrow_book_failure_writes_nothing_witness:
  "snd (borrow_book db_A request_bad 0 id_loan) = Inl InvalidIdentifier \<and>
   fst (borrow_book db_A request_bad 0 id_loan) = db_A"
proof -
  have failed: "snd (borrow_book db_A request_bad 0 id_loan) = Inl InvalidIdentifier"
    by (simp add: sample_defs model_defs)
  from borrow_book_failure_writes_nothing [OF failed] failed show ?thesis
    by simp
qed

text \<open>
  Claim C9. A member document without the field \<open>is_active\<close> is treated as active: for
  well-formed identifiers the borrow does not fail with \<open>InvalidMember\<close>, and when the
  book exists and has a copy available the borrow goes through and answers with a loan.
\<close>

theorem borrow_book_missing_is_active:
  assumes "ObjectId_is_valid (req_member_id payload)"
    and "ObjectId_is_valid (req_book_id payload)"
    and "find_one (member_coll s) (ObjectId (req_member_id payload)) = Some (mk, m)"
    and "is_active m = None"
  shows "snd (borrow_book s payload now new_id) \<noteq> Inl InvalidMember \<and>
         (\<forall>bk b. find_one (book_coll s) (ObjectId (req_book_id payload)) = Some (bk, b) \<and>
                 0 < get_copies_available b
            \<longrightarrow> (\<exists>doc. snd (borrow_book s payload now new_id) = Inr (Some doc)))"
  using assms
  by (auto simp: borrow_book_def Let_def create_document_def get_is_active_def to_str_id_def
        find_one_append_last split: option.splits)

theorem borrow_book_missing_is_active_witness:
  "is_active member_B = None \<and>
   snd (borrow_book db_A request_B 0 id_loan) \<noteq> Inl InvalidMember \<and>
   (\<exists>doc. snd (borrow_book db_A request_B 0 id_loan) = Inr (Some doc))"
proof -
  have v1: "ObjectId_is_valid (req_member_id request_B)"
    and v2: "ObjectId_is_valid (req_book_id request_B)"
    by (simp_all add: sample_defs model_defs)
  have m: "find_one (member_coll db_A) (ObjectId (req_member_id request_B)) = Some (id_member2, member_B)"
    by (simp add: sample_defs model_defs)
  have a: "is_active member_B = None"
    by (simp add: member_B_def)
  have b: "find_one (book_coll db_A) (ObjectId (req_book_id request_B)) = Some (id_book, book_A) \<and>
           0 < get_copies_available book_A"
    by (simp add: sample_defs model_defs)
  from borrow_book_missing_is_active [OF v1 v2 m a, of 0 id_loan] a b show ?thesis
    by blast
qed

text \<open>
  Claim C3. For well-formed identifiers the first violated precondition decides the failure:
  \<open>InvalidMember\<close> exactly when the member is missing or has \<open>is_active\<close> false;
  \<open>BookNotFound\<close> exactly when the member passes and the book is missing; \<open>OutOfStock\<close>
  exactly when the member passes, the book exists and its \<open>copies_available\<close> is not
  positive. In particular, once a borrow has taken the last available copy, every further
  borrow of that book by a member that passes fails with \<open>OutOfStock\<close>.
\<close>

theorem borrow_book_errors:
  assumes "ObjectId_is_valid (req_member_id payload)"
    and "ObjectId_is_valid (req_book_id payload)"
  shows "(snd (borrow_book s payload now new_id) = Inl InvalidMember) = (\<not> member_ok s payload) \<and>
    (snd (borrow_book s payload now new_id) = Inl BookNotFound) =
       (member_ok s payload \<and> find_one (book_coll s) (ObjectId (req_book_id payload)) = None) \<and>
    (snd (borrow_book s payload now new_id) = Inl OutOfStock) =
       (member_ok s payload \<and>
        (\<exists>bk b. find_one (book_coll s) (ObjectId (req_book_id payload)) = Some (bk, b) \<and>
                get_copies_available b \<le> 0)) \<and>
    (\<forall>payload' now' new_id' bk b.
        member_ok s payload \<and>
        find_one (book_coll s) (ObjectId (req_book_id payload)) = Some (bk, b) \<and>
        get_copies_available b = 1 \<and>
        ObjectId_is_valid (req_member_id payload') \<and> ObjectId_is_valid (req_book_id payload') \<and>
        member_ok (fst (borrow_book s payload now new_id)) payload' \<and>
        ObjectId (req_book_id payload') = ObjectId (req_book_id payload)
        \<longrightarrow> snd (borrow_book (fst (borrow_book s payload now new_id)) payload' now' new_id')
              = Inl OutOfStock)"
proof -
  let ?r = "borrow_book s payload now new_id"
  have a: "(snd ?r = Inl InvalidMember) = (\<not> member_ok s payload)"
    using assms
    by (auto simp: borrow_book_def member_ok_def Let_def create_document_def get_is_active_iff
             split: option.splits)
  have b: "(snd ?r = Inl BookNotFound) =
       (member_ok s payload \<and> find_one (book_coll s) (ObjectId (req_book_id payload)) = None)"
    using assms
    by (auto simp: borrow_book_def member_ok_def Let_def create_document_def get_is_active_iff
             split: option.splits)
  have c: "(snd ?r = Inl OutOfStock) =
       (member_ok s payload \<and>
        (\<exists>bk b. find_one (book_coll s) (ObjectId (req_book_id payload)) = Some (bk, b) \<and>
                get_copies_available b \<le> 0))"
    using assms
    by (auto simp: borrow_book_def member_ok_def Let_def create_document_def get_is_active_iff
             split: option.splits)
  have d: "snd (borrow_book (fst ?r) payload' now' new_id') = Inl OutOfStock"
    if h: "member_ok s payload"
      "find_one (book_coll s) (ObjectId (req_book_id payload)) = Some (bk, b)"
      "get_copies_available b = 1"
      "ObjectId_is_valid (req_member_id payload')" "ObjectId_is_valid (req_book_id payload')"
      "member_ok (fst ?r) payload'"
      "ObjectId (req_book_id payload') = ObjectId (req_book_id payload)"
    for payload' now' new_id' bk b
  proof -
    let ?k = "ObjectId (req_book_id payload)"
    have books: "book_coll (fst ?r) = update_one ?k (inc_copies_available (- 1) now) (book_coll s)"
      using assms h(1-3)
      by (auto simp: borrow_book_def member_ok_def Let_def create_document_def get_is_active_iff
               split: option.splits)
    have "find_one (book_coll (fst ?r)) ?k = Some (?k, inc_copies_available (- 1) now b)"
      unfolding books using h(2) by (rule find_one_update_one_same)
    moreover have "get_copies_available (inc_copies_available (- 1) now b) = 0"
      using h(3) by (simp add: inc_copies_available_def get_copies_available_def)
    ultimately show ?thesis
      using h(4-7)
      by (auto simp: borrow_book_def [of "fst ?r"] member_ok_def get_is_active_iff
               split: option.splits)
  qed
  from a b c d show ?thesis by blast
qed

theorem borrow_book_errors_witness:
  "snd (borrow_book db_A request_nobody 0 id_loan) = Inl InvalidMember \<and>
   get_copies_available book_A = 1 \<and>
   snd (borrow_book (fst (borrow_book db_A request_A 0 id_loan)) request_B 1 id_loan2)
     = Inl OutOfStock"
proof -
  have n: "ObjectId_is_valid (req_member_id request_nobody)"
      "ObjectId_is_valid (req_book_id request_nobody)"
      "\<not> member_ok db_A request_nobody"
    by (simp_all add: sample_defs model_defs)
  have v: "ObjectId_is_valid (req_member_id request_A)"
      "ObjectId_is_valid (req_book_id request_A)"
    by (simp_all add: sample_defs model_defs)
  have h: "member_ok db_A request_A \<and>
      find_one (book_coll db_A) (ObjectId (req_book_id request_A)) = Some (id_book, book_A) \<and>
      get_copies_available book_A = 1 \<and>
      ObjectId_is_valid (req_member_id request_B) \<and> ObjectId_is_valid (req_book_id request_B) \<and>
      member_ok (fst (borrow_book db_A request_A 0 id_loan)) request_B \<and>
      ObjectId (req_book_id request_B) = ObjectId (req_book_id request_A)"
    by (simp add: sample_defs model_defs)
  from borrow_book_errors [OF n(1,2), of db_A 0 id_loan] n(3)
  have "snd (borrow_book db_A request_nobody 0 id_loan) = Inl InvalidMember"
    by blast
  moreover from borrow_book_errors [OF v, of db_A 0 id_loan] h
  have "snd (borrow_book (fst (borrow_book db_A request_A 0 id_loan)) request_B 1 id_loan2)
     = Inl OutOfStock"
    by blast
  ultimately show ?thesis
    using h by blast
qed

subsection \<open>Borrowing: success\<close>

text \<open>
  Claim C2. A borrow request with \<open>days\<close> between 1 and 60, well-formed identifiers, an
  existing member with \<open>is_active\<close> true and an existing book with a copy available
  succeeds. It appends exactly one loan to the loan collection, under the identifier that the
  store assigns: status \<open>borrowed\<close>, \<open>borrowed_at = now\<close>,
  \<open>due_at = now + days\<close> and no \<open>returned_at\<close>; that loan is the answer. The book
  named by the request has its \<open>copies_available\<close> lowered by exactly 1 (and its update
  stamp set); no other book and no member changes.
\<close>

theorem post_loans_borrow_success:
  assumes "ObjectId_is_valid (req_member_id payload)"
    and "ObjectId_is_valid (req_book_id payload)"
    and "find_one (member_coll s) (ObjectId (req_member_id payload)) = Some (mk, m)"
    and "is_active m = Some True"
    and "find_one (book_coll s) (ObjectId (req_book_id payload)) = Some (bk, b)"
    and "0 < get_copies_available b"
    and "1 \<le> req_days payload" and "req_days payload \<le> 60"
    and "ObjectId new_id \<notin> fst ` set (loan_coll s)"
  shows "snd (post_loans_borrow s payload now new_id) =
           Inr (Some (ObjectId new_id,
             \<lparr>member_id = req_member_id payload, book_id = req_book_id payload,
              borrowed_at = now, due_at = now + timedelta (req_days payload),
              returned_at = None, status = ''borrowed'', loan_updated_at = None\<rparr>)) \<and>
         loan_coll (fst (post_loans_borrow s payload now new_id)) =
           loan_coll s @ [(ObjectId new_id,
             \<lparr>member_id = req_member_id payload, book_id = req_book_id payload,
              borrowed_at = now, due_at = now + timedelta (req_days payload),
              returned_at = None, status = ''borrowed'', loan_updated_at = None\<rparr>)] \<and>
         member_coll (fst (post_loans_borrow s payload now new_id)) = member_coll s \<and>
         map fst (book_coll (fst (post_loans_borrow s payload now new_id))) = map fst (book_coll s) \<and>
         find_one (book_coll (fst (post_loans_borrow s payload now new_id)))
             (ObjectId (req_book_id payload)) =
           Some (ObjectId (req_book_id payload),
             b\<lparr>copies_available := Some (get_copies_available b - 1),
               book_updated_at := Some now\<rparr>) \<and>
         (\<forall>k. k \<noteq> ObjectId (req_book_id payload) \<longrightarrow>
            find_one (book_coll (fst (post_loans_borrow s payload now new_id))) k =
            find_one (book_coll s) k)"
proof -
  let ?k = "ObjectId (req_book_id payload)"
  let ?ln = "\<lparr>member_id = req_member_id payload, book_id = req_book_id payload,
              borrowed_at = now, due_at = now + timedelta (req_days payload),
              returned_at = None, status = ''borrowed'', loan_updated_at = None\<rparr>"
  let ?s' = "s\<lparr>loan_coll := loan_coll s @ [(ObjectId new_id, ?ln)],
               book_coll := update_one ?k (inc_copies_available (- 1) now) (book_coll s)\<rparr>"
  have run: "post_loans_borrow s payload now new_id =
      (?s', Inr (to_str_id (find_one (loan_coll s @ [(ObjectId new_id, ?ln)]) (ObjectId new_id))))"
    using assms(1-8)
    by (simp add: post_loans_borrow_def BorrowRequest_valid_def borrow_book_def Let_def
          create_document_def get_is_active_def)
  have doc: "find_one (loan_coll s @ [(ObjectId new_id, ?ln)]) (ObjectId new_id) =
      Some (ObjectId new_id, ?ln)"
    using assms(9) by (rule find_one_append_fresh)
  have bk: "find_one (update_one ?k (inc_copies_available (- 1) now) (book_coll s)) ?k =
      Some (?k, inc_copies_available (- 1) now b)"
    using assms(5) by (rule find_one_update_one_same)
  have dec: "inc_copies_available (- 1) now b =
      b\<lparr>copies_available := Some (get_copies_available b - 1), book_updated_at := Some now\<rparr>"
    by (simp add: inc_copies_available_def)
  show ?thesis
    unfolding run
    by (simp add: doc bk dec [symmetric] to_str_id_def map_fst_update_one
          find_one_update_one_other)
qed

theorem post_loans_borrow_success_witness:
  "get_copies_available book_A = 1 \<and>
   snd (post_loans_borrow db_A request_A 100 id_loan) =
     Inr (Some (id_loan,
       \<lparr>member_id = id_member, book_id = id_book, borrowed_at = 100,
        due_at = 100 + timedelta 14, returned_at = None, status = ''borrowed'',
        loan_updated_at = None\<rparr>)) \<and>
   length (loan_coll (fst (post_loans_borrow db_A request_A 100 id_loan))) = 1 \<and>
   find_one (book_coll (fst (post_loans_borrow db_A request_A 100 id_loan))) id_book =
     Some (id_book, book_A\<lparr>copies_available := Some 0, book_updated_at := Some 100\<rparr>)"
proof -
  have v: "ObjectId_is_valid (req_member_id request_A)" "ObjectId_is_valid (req_book_id request_A)"
    by (simp_all add: sample_defs model_defs)
  have m: "find_one (member_coll db_A) (ObjectId (req_member_id request_A)) = Some (id_member, member_A)"
    "is_active member_A = Some True"
    by (simp_all add: sample_defs model_defs)
  have b: "find_one (book_coll db_A) (ObjectId (req_book_id request_A)) = Some (id_book, book_A)"
    "0 < get_copies_available book_A"
    by (simp_all add: sample_defs model_defs)
  have d: "1 \<le> req_days request_A" "req_days request_A \<le> 60"
    by (simp_all add: request_A_def)
  have f: "ObjectId id_loan \<notin> fst ` set (loan_coll db_A)"
    by (simp add: db_A_def)
  have e: "ObjectId id_loan = id_loan" "ObjectId id_book = id_book"
    "req_member_id request_A = id_member" "req_book_id request_A = id_book"
    "req_days request_A = 14" "loan_coll db_A = []" "get_copies_available book_A = 1"
    by (simp_all add: sample_defs model_defs)
  from post_loans_borrow_success [OF v m b d f, of 100] show ?thesis
    by (simp add: e)
qed

subsection \<open>Returning\<close>

text \<open>
  Claim C4. Returning a loan whose status is already \<open>returned\<close> is a no-op: the
  database is left exactly as it was, so the book's \<open>copies_available\<close> is not incremented
  again, and the answer is the stored loan. Hence a second return after a successful one
  changes nothing and gives the same answer as the first.
\<close>

theorem return_book_idempotent:
  assumes "ObjectId_is_valid loan_id"
  shows "(\<forall>lk l. find_one (loan_coll s) (ObjectId loan_id) = Some (lk, l) \<and>
                 status l = ''returned''
           \<longrightarrow> return_book s loan_id now = (s, Inr (Some (lk, l)))) \<and>
         (\<forall>v now'. snd (return_book s loan_id now) = Inr v
           \<longrightarrow> return_book (fst (return_book s loan_id now)) loan_id now' =
                 (fst (return_book s loan_id now), Inr v))"
proof -
  let ?k = "ObjectId loan_id"
  have first: "return_book s loan_id t = (s, Inr (Some (lk, l)))"
    if "find_one (loan_coll s) ?k = Some (lk, l)" "status l = ''returned''" for s lk l t
    using that assms by (simp add: return_book_def to_str_id_def)
  have second: "return_book (fst (return_book s loan_id now)) loan_id now' =
                 (fst (return_book s loan_id now), Inr v)"
    if ok: "snd (return_book s loan_id now) = Inr v" for v now'
  proof (cases "find_one (loan_coll s) ?k")
    case None
    with ok assms show ?thesis by (simp add: return_book_def)
  next
    case (Some p)
    obtain lk l where p: "p = (lk, l)" by (cases p)
    show ?thesis
    proof (cases "status l = ''returned''")
      case True
      with Some p first [of s lk l] ok show ?thesis by simp
    next
      case False
      with ok Some p assms have valid: "ObjectId_is_valid (book_id l)"
        by (auto simp: return_book_def Let_def split: if_splits)
      let ?s2 = "fst (return_book s loan_id now)"
      have loans: "loan_coll ?s2 = update_one ?k (mark_returned now) (loan_coll s)"
        using False Some p assms valid by (simp add: return_book_def Let_def)
      have found: "find_one (loan_coll ?s2) ?k = Some (?k, mark_returned now l)"
        unfolding loans using Some p by (simp add: find_one_update_one_same)
      have v: "v = Some (?k, mark_returned now l)"
        using ok False Some p assms valid found
        by (simp add: return_book_def Let_def to_str_id_def loans)
      have "status (mark_returned now l) = ''returned''"
        by (simp add: mark_returned_def)
      from first [OF found this] v show ?thesis by simp
    qed
  qed
  from first second show ?thesis by blast
qed

theorem return_book_idempotent_witness:
  "status loan_R = ''returned'' \<and>
   return_book db_returned id_loan 9 = (db_returned, Inr (Some (id_loan, loan_R))) \<and>
   return_book (fst (return_book db_lent id_loan 5)) id_loan 9 =
     (fst (return_book db_lent id_loan 5), Inr (Some (id_loan, loan_R)))"
proof -
  have v: "ObjectId_is_valid id_loan"
    by (simp add: sample_defs model_defs)
  have r: "find_one (loan_coll db_returned) (ObjectId id_loan) = Some (id_loan, loan_R) \<and>
      status loan_R = ''returned''"
    by (simp add: sample_defs model_defs)
  have once: "snd (return_book db_lent id_loan 5) = Inr (Some (id_loan, loan_R))"
    by (simp add: sample_defs model_defs)
  from return_book_idempotent [OF v, of db_returned 9] r
  have "return_book db_returned id_loan 9 = (db_returned, Inr (Some (id_loan, loan_R)))"
    by blast
  moreover from return_book_idempotent [OF v, of db_lent 5] once
  have "return_book (fst (return_book db_lent id_loan 5)) id_loan 9 =
     (fst (return_book db_lent id_loan 5), Inr (Some (id_loan, loan_R)))"
    by blast
  ultimately show ?thesis using r by blast
qed

text \<open>
  Claim C5. A return with a well-formed \<open>loan_id\<close> that names no loan fails with
  \<open>NotFound\<close> and writes nothing. For a loan with status \<open>borrowed\<close> or \<open>overdue\<close>
  the return sets \<open>status = returned\<close> and \<open>returned_at = now\<close> on that loan alone, and
  then raises the \<open>copies_available\<close> of the loan's book by exactly 1, whatever its
  \<open>total_copies\<close> is; no other book and no member changes.
\<close>

theorem return_book_active:
  assumes "ObjectId_is_valid loan_id"
  shows "(find_one (loan_coll s) (ObjectId loan_id) = None
           \<longrightarrow> return_book s loan_id now = (s, Inl NotFound)) \<and>
         (\<forall>lk l. find_one (loan_coll s) (ObjectId loan_id) = Some (lk, l) \<and>
                 (status l = ''borrowed'' \<or> status l = ''overdue'') \<and>
                 ObjectId_is_valid (book_id l)
           \<longrightarrow> snd (return_book s loan_id now) =
                   Inr (Some (lk, l\<lparr>status := ''returned'', returned_at := Some now,
                                    loan_updated_at := Some now\<rparr>)) \<and>
               find_one (loan_coll (fst (return_book s loan_id now))) (ObjectId loan_id) =
                   Some (lk, l\<lparr>status := ''returned'', returned_at := Some now,
                               loan_updated_at := Some now\<rparr>) \<and>
               map fst (loan_coll (fst (return_book s loan_id now))) = map fst (loan_coll s) \<and>
               (\<forall>k. k \<noteq> ObjectId loan_id \<longrightarrow>
                  find_one (loan_coll (fst (return_book s loan_id now))) k =
                  find_one (loan_coll s) k) \<and>
               member_coll (fst (return_book s loan_id now)) = member_coll s \<and>
               map fst (book_coll (fst (return_book s loan_id now))) = map fst (book_coll s) \<and>
               (\<forall>bk b. find_one (book_coll s) (ObjectId (book_id l)) = Some (bk, b)
                  \<longrightarrow> find_one (book_coll (fst (return_book s loan_id now)))
                        (ObjectId (book_id l)) =
                      Some (bk, b\<lparr>copies_available := Some (get_copies_available b + 1),
                                  book_updated_at := Some now\<rparr>)) \<and>
               (\<forall>k. k \<noteq> ObjectId (book_id l) \<longrightarrow>
                  find_one (book_coll (fst (return_book s loan_id now))) k =
                  find_one (book_coll s) k))"
proof -
  let ?k = "ObjectId loan_id"
  have missing: "return_book s loan_id now = (s, Inl NotFound)"
    if "find_one (loan_coll s) ?k = None"
    using that assms by (simp add: return_book_def)
  have active: "snd (return_book s loan_id now) = Inr (Some (lk, mark_returned now l)) \<and>
               find_one (loan_coll (fst (return_book s loan_id now))) ?k =
                   Some (lk, mark_returned now l) \<and>
               map fst (loan_coll (fst (return_book s loan_id now))) = map fst (loan_coll s) \<and>
               (\<forall>k. k \<noteq> ?k \<longrightarrow>
                  find_one (loan_coll (fst (return_book s loan_id now))) k =
                  find_one (loan_coll s) k) \<and>
               member_coll (fst (return_book s loan_id now)) = member_coll s \<and>
               map fst (book_coll (fst (return_book s loan_id now))) = map fst (book_coll s) \<and>
               (\<forall>bk b. find_one (book_coll s) (ObjectId (book_id l)) = Some (bk, b)
                  \<longrightarrow> find_one (book_coll (fst (return_book s loan_id now)))
                        (ObjectId (book_id l)) =
                      Some (bk, inc_copies_available 1 now b)) \<and>
               (\<forall>k. k \<noteq> ObjectId (book_id l) \<longrightarrow>
                  find_one (book_coll (fst (return_book s loan_id now))) k =
                  find_one (book_coll s) k)"
    if h: "find_one (loan_coll s) ?k = Some (lk, l)"
      "status l = ''borrowed'' \<or> status l = ''overdue''"
      "ObjectId_is_valid (book_id l)" for lk l
  proof -
    have lk: "lk = ?k" using h(1) by (rule find_one_key)
    have nr: "status l \<noteq> ''returned''" using h(2) by auto
    let ?s2 = "s\<lparr>loan_coll := update_one ?k (mark_returned now) (loan_coll s),
                 book_coll := update_one (ObjectId (book_id l)) (inc_copies_available 1 now)
                                (book_coll s)\<rparr>"
    have found: "find_one (update_one ?k (mark_returned now) (loan_coll s)) ?k =
        Some (?k, mark_returned now l)"
      using h(1) by (rule find_one_update_one_same)
    have run: "return_book s loan_id now = (?s2, Inr (Some (?k, mark_returned now l)))"
      using assms h(1,3) nr found by (simp add: return_book_def Let_def to_str_id_def)
    have book: "find_one (update_one (ObjectId (book_id l)) (inc_copies_available 1 now)
          (book_coll s)) (ObjectId (book_id l)) = Some (bk, inc_copies_available 1 now b)"
      if "find_one (book_coll s) (ObjectId (book_id l)) = Some (bk, b)" for bk b
      using find_one_update_one_same [OF that] find_one_key [OF that] by simp
    show ?thesis
      unfolding run
      by (simp add: lk found book map_fst_update_one find_one_update_one_other)
  qed
  have unfold_mark: "mark_returned now l =
      l\<lparr>status := ''returned'', returned_at := Some now, loan_updated_at := Some now\<rparr>" for l
    by (simp add: mark_returned_def)
  have unfold_inc: "inc_copies_available 1 now b =
      b\<lparr>copies_available := Some (get_copies_available b + 1), book_updated_at := Some now\<rparr>"
    for b by (simp add: inc_copies_available_def)
  from missing active show ?thesis
    unfolding unfold_mark unfold_inc by blast
qed

theorem return_book_active_witness:
  "return_book db_A id_loan 5 = (db_A, Inl NotFound) \<and>
   status loan_A = ''borrowed'' \<and>
   get_copies_available book_A = total_copies book_A \<and>
   snd (return_book db_lent id_loan 5) = Inr (Some (id_loan, loan_R)) \<and>
   find_one (book_coll (fst (return_book db_lent id_loan 5))) id_book =
     Some (id_book, book_A\<lparr>copies_available := Some 2, book_updated_at := Some 5\<rparr>)"
proof -
  have v: "ObjectId_is_valid id_loan"
    by (simp add: sample_defs model_defs)
  have none: "find_one (loan_coll db_A) (ObjectId id_loan) = None"
    by (simp add: sample_defs model_defs)
  have l: "find_one (loan_coll db_lent) (ObjectId id_loan) = Some (id_loan, loan_A) \<and>
      (status loan_A = ''borrowed'' \<or> status loan_A = ''overdue'') \<and>
      ObjectId_is_valid (book_id loan_A)"
    by (simp add: sample_defs model_defs)
  have b: "find_one (book_coll db_lent) (ObjectId (book_id loan_A)) = Some (id_book, book_A)"
    by (simp add: sample_defs model_defs)
  have e: "loan_A\<lparr>status := ''returned'', returned_at := Some 5, loan_updated_at := Some 5\<rparr>
      = loan_R" "ObjectId (book_id loan_A) = id_book" "get_copies_available book_A + 1 = 2"
    by (simp_all add: sample_defs model_defs)
  have c: "status loan_A = ''borrowed'' \<and> get_copies_available book_A = total_copies book_A"
    by (simp add: sample_defs model_defs)
  from return_book_active [OF v, of db_A 5] none
  have "return_book db_A id_loan 5 = (db_A, Inl NotFound)"
    by blast
  moreover from return_book_active [OF v, of db_lent 5] l b
  have "snd (return_book db_lent id_loan 5) =
      Inr (Some (id_loan, loan_A\<lparr>status := ''returned'', returned_at := Some 5,
                                 loan_updated_at := Some 5\<rparr>)) \<and>
    find_one (book_coll (fst (return_book db_lent id_loan 5))) (ObjectId (book_id loan_A)) =
      Some (id_book, book_A\<lparr>copies_available := Some (get_copies_available book_A + 1),
                            book_updated_at := Some 5\<rparr>)"
    by blast
  ultimately have "return_book db_A id_loan 5 = (db_A, Inl NotFound) \<and>
      snd (return_book db_lent id_loan 5) = Inr (Some (id_loan, loan_R)) \<and>
      find_one (book_coll (fst (return_book db_lent id_loan 5))) id_book =
        Some (id_book, book_A\<lparr>copies_available := Some 2, book_updated_at := Some 5\<rparr>)"
    by (simp add: e)
  with c show ?thesis by blast
qed

subsection \<open>The overdue sweep of the loan listing\<close>

lemma overdue_query_set_overdue: "\<not> overdue_query now (set_overdue l)"
  by (simp add: overdue_query_def set_overdue_def)

lemma update_many_idem:
  "(\<And>d. \<not> q (f d)) \<Longrightarrow> update_many q f (update_many q f ds) = update_many q f ds"
  by (induction ds) (auto simp: update_many_def)

lemma update_many_nth:
  "i < length ds \<Longrightarrow>
   update_many q f ds ! i = (fst (ds ! i), if q (snd (ds ! i)) then f (snd (ds ! i)) else snd (ds ! i))"
  by (simp add: update_many_def case_prod_beta)

text \<open>
  Claim C6. Every loan listing first sweeps the loan collection, whatever its status filter:
  a loan whose status is \<open>borrowed\<close> and whose \<open>due_at\<close> is strictly before \<open>now\<close>
  gets status \<open>overdue\<close> and is otherwise unchanged, and every other loan is left as it
  is; books and members are untouched. In particular a loan that is already \<open>overdue\<close> and
  a \<open>returned\<close> loan, also one past its due date, are not altered, and a second sweep at
  the same instant changes nothing.
\<close>

theorem list_loans_sweep:
  "book_coll (fst (list_loans s status_arg now)) = book_coll s \<and>
   member_coll (fst (list_loans s status_arg now)) = member_coll s \<and>
   length (loan_coll (fst (list_loans s status_arg now))) = length (loan_coll s) \<and>
   (\<forall>i < length (loan_coll s).
      fst (loan_coll (fst (list_loans s status_arg now)) ! i) = fst (loan_coll s ! i) \<and>
      (status (snd (loan_coll s ! i)) = ''borrowed'' \<and> due_at (snd (loan_coll s ! i)) < now
         \<longrightarrow> snd (loan_coll (fst (list_loans s status_arg now)) ! i) =
               (snd (loan_coll s ! i))\<lparr>status := ''overdue''\<rparr>) \<and>
      (status (snd (loan_coll s ! i)) \<noteq> ''borrowed'' \<or> now \<le> due_at (snd (loan_coll s ! i))
         \<longrightarrow> snd (loan_coll (fst (list_loans s status_arg now)) ! i) = snd (loan_coll s ! i)) \<and>
      (status (snd (loan_coll s ! i)) = ''overdue'' \<or> status (snd (loan_coll s ! i)) = ''returned''
         \<longrightarrow> loan_coll (fst (list_loans s status_arg now)) ! i = loan_coll s ! i)) \<and>
   fst (list_loans (fst (list_loans s status_arg now)) status_arg' now) =
     fst (list_loans s status_arg now)"
proof -
  have s': "fst (list_loans s a now) =
      s\<lparr>loan_coll := update_many (overdue_query now) set_overdue (loan_coll s)\<rparr>" for s a
    by (simp add: list_loans_def Let_def)
  have idem: "fst (list_loans (fst (list_loans s status_arg now)) status_arg' now) =
     fst (list_loans s status_arg now)"
    by (simp add: s' update_many_idem overdue_query_set_overdue)
  have pointwise: "fst (loan_coll (fst (list_loans s status_arg now)) ! i) = fst (loan_coll s ! i) \<and>
      (status (snd (loan_coll s ! i)) = ''borrowed'' \<and> due_at (snd (loan_coll s ! i)) < now
         \<longrightarrow> snd (loan_coll (fst (list_loans s status_arg now)) ! i) =
               (snd (loan_coll s ! i))\<lparr>status := ''overdue''\<rparr>) \<and>
      (status (snd (loan_coll s ! i)) \<noteq> ''borrowed'' \<or> now \<le> due_at (snd (loan_coll s ! i))
         \<longrightarrow> snd (loan_coll (fst (list_loans s status_arg now)) ! i) = snd (loan_coll s ! i)) \<and>
      (status (snd (loan_coll s ! i)) = ''overdue'' \<or> status (snd (loan_coll s ! i)) = ''returned''
         \<longrightarrow> loan_coll (fst (list_loans s status_arg now)) ! i = loan_coll s ! i)"
    if "i < length (loan_coll s)" for i
    using that
    by (auto simp: s' update_many_nth overdue_query_def set_overdue_def prod_eq_iff)
  have rest: "book_coll (fst (list_loans s status_arg now)) = book_coll s \<and>
     member_coll (fst (list_loans s status_arg now)) = member_coll s \<and>
     length (loan_coll (fst (list_loans s status_arg now))) = length (loan_coll s)"
    by (simp add: s' update_many_def)
  from rest pointwise idem show ?thesis by blast
qed

theorem list_loans_sweep_witness:
  "status loan_A = ''borrowed'' \<and> due_at loan_A < timedelta 15 \<and>
   snd (loan_coll (fst (list_loans db_lent None (timedelta 15))) ! 0) =
     loan_A\<lparr>status := ''overdue''\<rparr> \<and>
   status loan_R = ''returned'' \<and> due_at loan_R < timedelta 15 \<and>
   loan_coll (fst (list_loans db_returned None (timedelta 15))) ! 0 = (id_loan, loan_R)"
proof -
  have a: "0 < length (loan_coll db_lent)" "snd (loan_coll db_lent ! 0) = loan_A"
      "status loan_A = ''borrowed'' \<and> due_at loan_A < timedelta 15"
    by (simp_all add: sample_defs timedelta_def)
  have r: "0 < length (loan_coll db_returned)" "loan_coll db_returned ! 0 = (id_loan, loan_R)"
      "status loan_R = ''returned'' \<and> due_at loan_R < timedelta 15"
    by (simp_all add: sample_defs timedelta_def)
  from list_loans_sweep [of db_lent None "timedelta 15"] a
  have "snd (loan_coll (fst (list_loans db_lent None (timedelta 15))) ! 0) =
      loan_A\<lparr>status := ''overdue''\<rparr>"
    by metis
  moreover from list_loans_sweep [of db_returned None "timedelta 15"] r(1) r(3)
  have "loan_coll (fst (list_loans db_returned None (timedelta 15))) ! 0 =
      loan_coll db_returned ! 0"
    by (simp add: r(2))
  ultimately show ?thesis
    using a(3) r(2,3) by simp
qed

subsection \<open>Deleting a member\<close>

lemma fst_delete_one_Cons:
  "fst (delete_one k ((k', d) # ds)) = (if k' = k then ds else (k', d) # fst (delete_one k ds))"
  by (simp split: prod.splits)

lemma snd_delete_one_Cons:
  "snd (delete_one k ((k', d) # ds)) = (if k' = k then 1 else snd (delete_one k ds))"
  by (simp split: prod.splits)

lemma delete_one_count: "snd (delete_one k ds) = (if find_one ds k = None then 0 else 1)"
proof (induction ds)
  case Nil
  show ?case by simp
next
  case (Cons p ds)
  obtain k' d where p: "p = (k', d)" by (cases p)
  from Cons show ?case
    unfolding p snd_delete_one_Cons by simp
qed

lemma delete_one_length:
  "length (fst (delete_one k ds)) + snd (delete_one k ds) = length ds"
proof (induction ds)
  case Nil
  show ?case by simp
next
  case (Cons p ds)
  obtain k' d where p: "p = (k', d)" by (cases p)
  from Cons show ?case
    unfolding p snd_delete_one_Cons fst_delete_one_Cons by simp
qed

lemma delete_one_gone:
  "distinct (map fst ds) \<Longrightarrow> find_one (fst (delete_one k ds)) k = None"
proof (induction ds)
  case Nil
  show ?case by simp
next
  case (Cons p ds)
  obtain k' d where p: "p = (k', d)" by (cases p)
  from Cons show ?case
    unfolding p fst_delete_one_Cons by (auto simp: find_one_None_iff)
qed

lemma count_documents_zero_iff:
  "count_documents q ds = 0 \<longleftrightarrow> (\<forall>(k, d) \<in> set ds. \<not> q d)"
  by (auto simp: count_documents_def filter_empty_conv)

text \<open>
  Claim C7. For a well-formed member identifier, deletion fails with \<open>HasActiveLoans\<close>
  exactly when the number of loans that carry this member identifier and have status
  \<open>borrowed\<close> or \<open>overdue\<close> is not zero, and then nothing is written. When the member
  exists and every loan that carries its identifier has status \<open>returned\<close>, the deletion
  succeeds: one member document is removed (the member, identifiers being unique) and loans
  and books are untouched.
\<close>

theorem delete_member_active_loans:
  assumes "ObjectId_is_valid mid"
  shows "(snd (delete_member s mid) = Inl HasActiveLoans) =
           (count_documents (\<lambda>l. member_id l = mid \<and>
              (status l = ''borrowed'' \<or> status l = ''overdue'')) (loan_coll s) \<noteq> 0) \<and>
         (snd (delete_member s mid) = Inl HasActiveLoans \<longrightarrow> fst (delete_member s mid) = s) \<and>
         (find_one (member_coll s) (ObjectId mid) \<noteq> None \<and>
          (\<forall>(k, l) \<in> set (loan_coll s). member_id l = mid \<longrightarrow> status l = ''returned'')
            \<longrightarrow> snd (delete_member s mid) = Inr () \<and>
                length (member_coll (fst (delete_member s mid))) + 1 = length (member_coll s) \<and>
                (distinct (map fst (member_coll s)) \<longrightarrow>
                   find_one (member_coll (fst (delete_member s mid))) (ObjectId mid) = None) \<and>
                loan_coll (fst (delete_member s mid)) = loan_coll s \<and>
                book_coll (fst (delete_member s mid)) = book_coll s)"
proof -
  let ?n = "count_documents (\<lambda>l. member_id l = mid \<and> active_loan_query l) (loan_coll s)"
  have q: "(\<lambda>l. member_id l = mid \<and> (status l = ''borrowed'' \<or> status l = ''overdue'')) =
      (\<lambda>l. member_id l = mid \<and> active_loan_query l)"
    by (auto simp: active_loan_query_def)
  have a: "(snd (delete_member s mid) = Inl HasActiveLoans) = (?n \<noteq> 0)"
    using assms by (auto simp: delete_member_def Let_def split: prod.splits)
  have b: "fst (delete_member s mid) = s" if "snd (delete_member s mid) = Inl HasActiveLoans"
    using that assms by (auto simp: delete_member_def Let_def split: prod.splits if_splits)
  have c: "snd (delete_member s mid) = Inr () \<and>
      length (member_coll (fst (delete_member s mid))) + 1 = length (member_coll s) \<and>
      (distinct (map fst (member_coll s)) \<longrightarrow>
         find_one (member_coll (fst (delete_member s mid))) (ObjectId mid) = None) \<and>
      loan_coll (fst (delete_member s mid)) = loan_coll s \<and>
      book_coll (fst (delete_member s mid)) = book_coll s"
    if m: "find_one (member_coll s) (ObjectId mid) \<noteq> None"
      and r: "\<forall>(k, l) \<in> set (loan_coll s). member_id l = mid \<longrightarrow> status l = ''returned''"
  proof -
    have zero: "?n = 0"
      using r by (auto simp: count_documents_zero_iff active_loan_query_def)
    have one: "snd (delete_one (ObjectId mid) (member_coll s)) = 1"
      using m by (simp add: delete_one_count)
    obtain ms n where d: "delete_one (ObjectId mid) (member_coll s) = (ms, n)"
      by (cases "delete_one (ObjectId mid) (member_coll s)")
    have run: "delete_member s mid =
        (s\<lparr>member_coll := fst (delete_one (ObjectId mid) (member_coll s))\<rparr>, Inr ())"
      using assms zero one d by (simp add: delete_member_def Let_def)
    show ?thesis
      using delete_one_length [of "ObjectId mid" "member_coll s"] one
      by (simp add: run delete_one_gone)
  qed
  from a b c show ?thesis unfolding q by blast
qed

theorem delete_member_active_loans_witness:
  "snd (delete_member db_lent id_member) = Inl HasActiveLoans \<and>
   fst (delete_member db_lent id_member) = db_lent \<and>
   snd (delete_member db_returned id_member) = Inr () \<and>
   find_one (member_coll (fst (delete_member db_returned id_member))) id_member = None"
proof -
  have v: "ObjectId_is_valid id_member"
    by (simp add: sample_defs model_defs)
  have n: "count_documents (\<lambda>l. member_id l = id_member \<and>
       (status l = ''borrowed'' \<or> status l = ''overdue'')) (loan_coll db_lent) \<noteq> 0"
    by (simp add: sample_defs count_documents_def)
  have r: "find_one (member_coll db_returned) (ObjectId id_member) \<noteq> None \<and>
      (\<forall>(k, l) \<in> set (loan_coll db_returned). member_id l = id_member \<longrightarrow> status l = ''returned'')"
    "distinct (map fst (member_coll db_returned))" "ObjectId id_member = id_member"
    by (simp_all add: sample_defs model_defs)
  from delete_member_active_loans [OF v, of db_lent] n
  have "snd (delete_member db_lent id_member) = Inl HasActiveLoans \<and>
      fst (delete_member db_lent id_member) = db_lent"
    by blast
  moreover from delete_member_active_loans [OF v, of db_returned] r
  have "snd (delete_member db_returned id_member) = Inr () \<and>
      find_one (member_coll (fst (delete_member db_returned id_member))) id_member = None"
    by simp
  ultimately show ?thesis by blast
qed

subsection \<open>Statistics\<close>

text \<open>
  Claim C8. \<open>stats\<close> leaves the database exactly as it was (so it runs no overdue sweep:
  the counts are those of the stored statuses) and answers with the number of books, the sum
  of \<open>total_copies\<close>, the sum of \<open>copies_available\<close> (both 0 without books), the number
  of members, the number of loans with status \<open>borrowed\<close> or \<open>overdue\<close>, and the number
  of loans with status \<open>overdue\<close>.
\<close>

theorem stats_reads:
  "fst (stats s) = s \<and>
   books (snd (stats s)) = length (book_coll s) \<and>
   copies (snd (stats s)) = sum_list (map (\<lambda>(k, b). total_copies b) (book_coll s)) \<and>
   available (snd (stats s)) = sum_list (map (\<lambda>(k, b). get_copies_available b) (book_coll s)) \<and>
   (book_coll s = [] \<longrightarrow> copies (snd (stats s)) = 0 \<and> available (snd (stats s)) = 0) \<and>
   members (snd (stats s)) = length (member_coll s) \<and>
   active_loans (snd (stats s)) =
     length (filter (\<lambda>(k, l). status l = ''borrowed'' \<or> status l = ''overdue'') (loan_coll s)) \<and>
   overdue (snd (stats s)) = length (filter (\<lambda>(k, l). status l = ''overdue'') (loan_coll s))"
proof -
  have q: "(\<lambda>(k, l). status l = ''borrowed'' \<or> status l = ''overdue'') =
      (\<lambda>(k, l :: loan). active_loan_query l)"
    by (auto simp: active_loan_query_def)
  show ?thesis
    unfolding q
    by (cases "book_coll s")
       (simp_all add: stats_def Let_def count_documents_def aggregate_copies_def)
qed

theorem stats_reads_witness:
  "book_coll db_empty = [] \<and>
   copies (snd (stats db_empty)) = 0 \<and> available (snd (stats db_empty)) = 0 \<and>
   fst (stats db_lent) = db_lent \<and>
   due_at loan_A < timedelta 15 \<and>
   active_loans (snd (stats db_lent)) = 1 \<and> overdue (snd (stats db_lent)) = 0 \<and>
   overdue (snd (stats (fst (list_loans db_lent None (timedelta 15))))) = 1"
proof -
  have e: "book_coll db_empty = []"
    by (simp add: db_empty_def)
  have l: "loan_coll db_lent = [(id_loan, loan_A)]" "status loan_A = ''borrowed''"
    "due_at loan_A < timedelta 15"
    "loan_coll (fst (list_loans db_lent None (timedelta 15))) =
       [(id_loan, loan_A\<lparr>status := ''overdue''\<rparr>)]"
    by (simp_all add: sample_defs timedelta_def list_loans_def Let_def update_many_def
          overdue_query_def set_overdue_def)
  from stats_reads [of db_empty] e
  have "copies (snd (stats db_empty)) = 0 \<and> available (snd (stats db_empty)) = 0"
    by blast
  moreover from stats_reads [of db_lent]
  have "fst (stats db_lent) = db_lent \<and>
      active_loans (snd (stats db_lent)) = 1 \<and> overdue (snd (stats db_lent)) = 0"
    by (simp add: l)
  moreover from stats_reads [of "fst (list_loans db_lent None (timedelta 15))"]
  have "overdue (snd (stats (fst (list_loans db_lent None (timedelta 15))))) = 1"
    by (simp add: l)
  ultimately show ?thesis
    using e l(3) by blast
qed

subsection \<open>The inventory invariant over sequences of requests\<close>

lemma count_documents_append:
  "count_documents q (ds @ [(k, d)]) = count_documents q ds + (if q d then 1 else 0)"
  by (simp add: count_documents_def)

lemma count_documents_update_one:
  "find_one ds k = Some (k', d) \<Longrightarrow>
   count_documents q (update_one k f ds) + (if q d then 1 else 0) =
   count_documents q ds + (if q (f d) then 1 else 0)"
  by (induction ds) (auto simp: count_documents_def split: if_splits)

lemma list_all_update_one:
  assumes "distinct (map fst bs)"
    and "list_all (\<lambda>(k, b). P k b) bs"
    and "\<And>b. (bk, b) \<in> set bs \<Longrightarrow> P bk b \<Longrightarrow> P' bk (f b)"
    and "\<And>k b. k \<noteq> bk \<Longrightarrow> P k b \<Longrightarrow> P' k b"
  shows "list_all (\<lambda>(k, b). P' k b) (update_one bk f bs)"
  using assms(1,2,3)
proof (induction bs)
  case Nil
  show ?case by simp
next
  case (Cons p bs)
  obtain k b where p: "p = (k, b)" by (cases p)
  show ?case
  proof (cases "k = bk")
    case True
    have notin: "bk \<notin> fst ` set bs"
      using Cons.prems(1) p True by simp
    have "P' k' b'" if "(k', b') \<in> set bs" for k' b'
    proof -
      from that notin have "k' \<noteq> bk" by force
      moreover from that Cons.prems(2) have "P k' b'"
        by (auto simp: list_all_iff)
      ultimately show ?thesis by (rule assms(4))
    qed
    then have "list_all (\<lambda>(k, b). P' k b) bs"
      by (auto simp: list_all_iff)
    moreover have "P' bk (f b)"
      using Cons.prems(2,3) p True by simp
    ultimately show ?thesis using p True by simp
  next
    case False
    have "list_all (\<lambda>(k, b). P' k b) (update_one bk f bs)"
      using Cons.IH Cons.prems by simp
    moreover have "P' k b"
      using False Cons.prems(2) p assms(4) by simp
    ultimately show ?thesis using p False by simp
  qed
qed

lemma ledger_ok_in_range: "ledger_ok s \<Longrightarrow> inventory_in_range s"
  by (auto simp: ledger_ok_def inventory_in_range_def copies_in_range_def copies_out_def
        list_all_iff)

lemma borrow_book_failed_state:
  "snd (borrow_book s payload now new_id) = Inl e \<Longrightarrow> fst (borrow_book s payload now new_id) = s"
  by (auto simp: borrow_book_def Let_def create_document_def
           split: if_splits option.splits prod.splits)

lemma borrow_book_done_state:
  assumes "snd (borrow_book s payload now new_id) = Inr v"
  shows "ObjectId_is_valid (req_book_id payload) \<and>
    (\<exists>bk b. find_one (book_coll s) (ObjectId (req_book_id payload)) = Some (bk, b) \<and>
            0 < get_copies_available b) \<and>
    fst (borrow_book s payload now new_id) =
      s\<lparr>loan_coll := loan_coll s @ [(ObjectId new_id,
           \<lparr>member_id = req_member_id payload, book_id = req_book_id payload,
            borrowed_at = now, due_at = now + timedelta (req_days payload),
            returned_at = None, status = ''borrowed'', loan_updated_at = None\<rparr>)],
        book_coll := update_one (ObjectId (req_book_id payload))
                       (inc_copies_available (- 1) now) (book_coll s)\<rparr>"
  using assms
  by (auto simp: borrow_book_def Let_def create_document_def
           split: if_splits option.splits prod.splits)

lemma ledger_ok_borrow_book:
  assumes "ledger_ok s"
  shows "ledger_ok (fst (borrow_book s payload now new_id))"
proof (cases "snd (borrow_book s payload now new_id)")
  case (Inl e)
  with assms show ?thesis by (simp add: borrow_book_failed_state)
next
  case (Inr v)
  let ?k = "ObjectId (req_book_id payload)"
  let ?ln = "\<lparr>member_id = req_member_id payload, book_id = req_book_id payload,
              borrowed_at = now, due_at = now + timedelta (req_days payload),
              returned_at = None, status = ''borrowed'', loan_updated_at = None\<rparr>"
  let ?loans = "loan_coll s @ [(ObjectId new_id, ?ln)]"
  note fin = borrow_book_done_state [OF Inr]
  from fin have valid: "ObjectId_is_valid (req_book_id payload)" by blast
  from fin obtain bk b where b: "find_one (book_coll s) ?k = Some (bk, b)"
      "0 < get_copies_available b"
    by blast
  from fin have s': "fst (borrow_book s payload now new_id) =
      s\<lparr>loan_coll := ?loans,
        book_coll := update_one ?k (inc_copies_available (- 1) now) (book_coll s)\<rparr>"
    by blast
  have out: "copies_out k ?loans = copies_out k (loan_coll s) + (if k = ?k then 1 else 0)" for k
    using valid by (auto simp: copies_out_def count_documents_append out_query_def)
  have bk: "bk = ?k" using b(1) by (rule find_one_key)
  have mem: "(?k, b) \<in> set (book_coll s)"
    using find_one_mem [OF b(1)] bk by simp
  have dist: "distinct (map fst (book_coll s))"
    using assms by (simp add: ledger_ok_def)
  have "list_all (\<lambda>(k, b). 0 \<le> get_copies_available b \<and>
                         get_copies_available b + copies_out k ?loans \<le> total_copies b)
        (update_one ?k (inc_copies_available (- 1) now) (book_coll s))"
  proof (rule list_all_update_one [where
        P = "\<lambda>k b'. 0 \<le> get_copies_available b' \<and>
                get_copies_available b' + copies_out k (loan_coll s) \<le> total_copies b'"])
    show "distinct (map fst (book_coll s))" by (rule dist)
    show "list_all (\<lambda>(k, b'). 0 \<le> get_copies_available b' \<and>
                get_copies_available b' + copies_out k (loan_coll s) \<le> total_copies b')
            (book_coll s)"
      using assms by (simp add: ledger_ok_def)
  next
    fix b' assume in_coll: "(?k, b') \<in> set (book_coll s)"
      and ok: "0 \<le> get_copies_available b' \<and>
                get_copies_available b' + copies_out ?k (loan_coll s) \<le> total_copies b'"
    have "b' = b" using dist in_coll mem by (rule eq_key_imp_eq_value)
    with b(2) have pos: "0 < get_copies_available b'" by simp
    have dec: "get_copies_available (inc_copies_available (- 1) now b') =
        get_copies_available b' - 1"
      "total_copies (inc_copies_available (- 1) now b') = total_copies b'"
      by (simp_all add: inc_copies_available_def get_copies_available_def)
    from pos ok show "0 \<le> get_copies_available (inc_copies_available (- 1) now b') \<and>
        get_copies_available (inc_copies_available (- 1) now b') + copies_out ?k ?loans
          \<le> total_copies (inc_copies_available (- 1) now b')"
      unfolding dec out by simp
  next
    fix k b' assume "k \<noteq> ?k"
      "0 \<le> get_copies_available b' \<and>
                get_copies_available b' + copies_out k (loan_coll s) \<le> total_copies b'"
    then show "0 \<le> get_copies_available b' \<and>
        get_copies_available b' + copies_out k ?loans \<le> total_copies b'"
      unfolding out by simp
  qed
  with dist show ?thesis
    unfolding s' by (simp add: ledger_ok_def map_fst_update_one)
qed

lemma return_book_state:
  "fst (return_book s loan_id now) = s \<or>
   (\<exists>lk l. find_one (loan_coll s) (ObjectId loan_id) = Some (lk, l) \<and>
      status l \<noteq> ''returned'' \<and>
      (if ObjectId_is_valid (book_id l)
       then fst (return_book s loan_id now) =
              s\<lparr>loan_coll := update_one (ObjectId loan_id) (mark_returned now) (loan_coll s),
                book_coll := update_one (ObjectId (book_id l)) (inc_copies_available 1 now)
                               (book_coll s)\<rparr>
       else fst (return_book s loan_id now) =
              s\<lparr>loan_coll := update_one (ObjectId loan_id) (mark_returned now) (loan_coll s)\<rparr>))"
  by (auto simp: return_book_def Let_def split: option.splits)

lemma copies_out_mark_returned:
  assumes "find_one ls k = Some (lk, l)"
  shows "copies_out bk (update_one k (mark_returned now) ls) + (if out_query bk l then 1 else 0) =
         copies_out bk ls"
proof -
  have "\<not> out_query bk (mark_returned now l)"
    by (simp add: out_query_def mark_returned_def)
  with count_documents_update_one [OF assms, of "out_query bk" "mark_returned now"]
  show ?thesis
    by (simp add: copies_out_def split: if_splits)
qed

lemma ledger_ok_return_book:
  assumes "ledger_ok s"
  shows "ledger_ok (fst (return_book s loan_id now))"
proof -
  let ?s' = "fst (return_book s loan_id now)"
  let ?loans = "update_one (ObjectId loan_id) (mark_returned now) (loan_coll s)"
  have dist: "distinct (map fst (book_coll s))"
    using assms by (simp add: ledger_ok_def)
  have inv: "list_all (\<lambda>(k, b). 0 \<le> get_copies_available b \<and>
                get_copies_available b + copies_out k (loan_coll s) \<le> total_copies b)
            (book_coll s)"
    using assms by (simp add: ledger_ok_def)
  from return_book_state [of s loan_id now] show ?thesis
  proof
    assume "?s' = s"
    with assms show ?thesis by simp
  next
    assume "\<exists>lk l. find_one (loan_coll s) (ObjectId loan_id) = Some (lk, l) \<and>
      status l \<noteq> ''returned'' \<and>
      (if ObjectId_is_valid (book_id l)
       then ?s' = s\<lparr>loan_coll := ?loans,
                book_coll := update_one (ObjectId (book_id l)) (inc_copies_available 1 now)
                               (book_coll s)\<rparr>
       else ?s' = s\<lparr>loan_coll := ?loans\<rparr>)"
    then obtain lk l where l: "find_one (loan_coll s) (ObjectId loan_id) = Some (lk, l)"
      and active: "status l \<noteq> ''returned''"
      and s': "if ObjectId_is_valid (book_id l)
       then ?s' = s\<lparr>loan_coll := ?loans,
                book_coll := update_one (ObjectId (book_id l)) (inc_copies_available 1 now)
                               (book_coll s)\<rparr>
       else ?s' = s\<lparr>loan_coll := ?loans\<rparr>"
      by blast
    note out = copies_out_mark_returned [OF l, of _ now]
    show ?thesis
    proof (cases "ObjectId_is_valid (book_id l)")
      case False
      then have same: "copies_out k ?loans = copies_out k (loan_coll s)" for k
        using out [of k] by (simp add: out_query_def)
      from False s' have "?s' = s\<lparr>loan_coll := ?loans\<rparr>" by simp
      with dist inv show ?thesis
        by (simp add: ledger_ok_def same)
    next
      case True
      let ?bk = "ObjectId (book_id l)"
      have this_book: "copies_out ?bk ?loans + 1 = copies_out ?bk (loan_coll s)"
        using out [of ?bk] True active by (simp add: out_query_def)
      have other: "copies_out k ?loans = copies_out k (loan_coll s)" if "k \<noteq> ?bk" for k
        using out [of k] that by (simp add: out_query_def)
      have "list_all (\<lambda>(k, b). 0 \<le> get_copies_available b \<and>
                         get_copies_available b + copies_out k ?loans \<le> total_copies b)
        (update_one ?bk (inc_copies_available 1 now) (book_coll s))"
      proof (rule list_all_update_one [where
            P = "\<lambda>k b'. 0 \<le> get_copies_available b' \<and>
                get_copies_available b' + copies_out k (loan_coll s) \<le> total_copies b'"])
        show "distinct (map fst (book_coll s))" by (rule dist)
        show "list_all (\<lambda>(k, b'). 0 \<le> get_copies_available b' \<and>
                get_copies_available b' + copies_out k (loan_coll s) \<le> total_copies b')
            (book_coll s)"
          by (rule inv)
      next
        fix b' assume ok: "0 \<le> get_copies_available b' \<and>
                get_copies_available b' + copies_out ?bk (loan_coll s) \<le> total_copies b'"
        have inc: "get_copies_available (inc_copies_available 1 now b') =
            get_copies_available b' + 1"
          "total_copies (inc_copies_available 1 now b') = total_copies b'"
          by (simp_all add: inc_copies_available_def get_copies_available_def)
        from ok this_book show "0 \<le> get_copies_available (inc_copies_available 1 now b') \<and>
            get_copies_available (inc_copies_available 1 now b') + copies_out ?bk ?loans
              \<le> total_copies (inc_copies_available 1 now b')"
          unfolding inc by simp
      next
        fix k b' assume "k \<noteq> ?bk"
          "0 \<le> get_copies_available b' \<and>
                get_copies_available b' + copies_out k (loan_coll s) \<le> total_copies b'"
        then show "0 \<le> get_copies_available b' \<and>
            get_copies_available b' + copies_out k ?loans \<le> total_copies b'"
          by (simp add: other)
      qed
      moreover from True s' have "?s' = s\<lparr>loan_coll := ?loans,
                book_coll := update_one ?bk (inc_copies_available 1 now) (book_coll s)\<rparr>"
        by simp
      ultimately show ?thesis
        using dist by (simp add: ledger_ok_def map_fst_update_one)
    qed
  qed
qed

lemma ledger_ok_serve: "ledger_ok s \<Longrightarrow> ledger_ok (fst (serve s r))"
  by (cases r) (simp_all add: post_loans_borrow_def ledger_ok_borrow_book ledger_ok_return_book)

text \<open>
  Claim C1, as amended. Start from a state in which book identifiers are unique and every
  book has \<open>0 \<le> copies_available\<close> and \<open>copies_available\<close> plus the number of
  its loans that are not yet returned at most \<open>total_copies\<close>. After any sequence of
  borrow and return requests, successful or not, the same holds again, and therefore
  \<open>0 \<le> copies_available \<le> total_copies\<close> holds for every book.
\<close>

theorem ledger_ok_serve_all:
  assumes "ledger_ok s"
  shows "ledger_ok (serve_all s rs) \<and> inventory_in_range (serve_all s rs)"
proof -
  have "ledger_ok (serve_all s rs)"
    using assms
  proof (induction rs arbitrary: s)
    case Nil
    then show ?case by simp
  next
    case (Cons r rs)
    from Cons.prems have "ledger_ok (fst (serve s r))" by (rule ledger_ok_serve)
    then show ?case using Cons.IH by simp
  qed
  then show ?thesis by (simp add: ledger_ok_in_range)
qed

theorem ledger_ok_serve_all_witness:
  "ledger_ok db_A \<and>
   inventory_in_range (serve_all db_A [Borrow request_A 0 id_loan, Return id_loan 5])"
proof -
  have start: "ledger_ok db_A"
    by (simp add: ledger_ok_def copies_out_def count_documents_def sample_defs model_defs)
  from ledger_ok_serve_all [OF start, of "[Borrow request_A 0 id_loan, Return id_loan 5]"] start
  show ?thesis by blast
qed

text \<open>
  Claim C1 as stated fails: the range \<open>0 \<le> copies_available \<le> total_copies\<close> alone is
  not preserved. In the state below the book has one copy of one available while a loan of
  it is still out; the return succeeds and leaves two copies available of one owned.
\<close>

theorem inventory_in_range_counterexample:
  "inventory_in_range db_lent \<and> all_succeed db_lent [Return id_loan 5] \<and>
   \<not> inventory_in_range (serve_all db_lent [Return id_loan 5])"
  by (simp add: inventory_in_range_def copies_in_range_def sample_defs model_defs)

end
